theory Spec2Isabelle
  imports Complex_Main "HOL-Library.Word" "HOL-Library.AList" "HOL-Library.Multiset" "HOL-Library.Sublist"
begin

section \<open>The consistent-hash ring of consistenthash.go\<close>

text \<open>
  The model follows the second (current) version of \<^verbatim>\<open>consistenthash.go\<close>: the one
  with the per-node hash cache \<^verbatim>\<open>hashs\<close>, \<^verbatim>\<open>adjust\<close>, \<^verbatim>\<open>lookup\<close> and \<^verbatim>\<open>Get2\<close>.

  \<^item> \<^verbatim>\<open>type Hash func(data []byte) uint32\<close> is a function from byte strings to 32-bit
    words; \<^verbatim>\<open>int(m.hash(..))\<close> is \<open>uint\<close> of it (Go's \<^verbatim>\<open>int\<close> is 64 bits wide here, since
    the source uses the constant \<^verbatim>\<open>int(1<<32)\<close>).
  \<^item> Weights and positions are Go \<^verbatim>\<open>int\<close>s, modelled as \<open>int\<close>; none of the properties
    below depends on 64-bit wrap-around.
  \<^item> The Go maps \<^verbatim>\<open>replicas\<close>, \<^verbatim>\<open>reps\<close> and \<^verbatim>\<open>stat\<close> are iterated by \<^verbatim>\<open>range\<close>, whose order
    Go leaves unspecified. They are association lists with distinct keys; the order of
    the list is the order in which \<^verbatim>\<open>range\<close> visits the entries. \<^verbatim>\<open>hashMap\<close> and
    \<^verbatim>\<open>hashs\<close> are only read and written by key and are partial functions.
  \<^item> A read of a missing key of a Go map gives the zero value (\<open>0\<close>, the empty string,
    the nil slice).
  \<^item> A panic is a value of type \<open>failure\<close>, which carries the state at the moment of the
    panic (Go mutates the receiver in place).
\<close>

type_synonym Hash = "string \<Rightarrow> 32 word"

record Map =
  hash :: Hash
  replica :: int
  keys :: "int list"
  hashMap :: "int \<rightharpoonup> string"
  hashs :: "string \<rightharpoonup> int list"
  replicas :: "(string \<times> int) list"

datatype failure = Panic string Map | IndexOutOfRange Map

text \<open>
  The float64 expression of \<^verbatim>\<open>adjust\<close>,
  \<^verbatim>\<open>int(float64(rep) * (expect - actual) / float64(expect) * scale)\<close> with
  \<^verbatim>\<open>actual = float64(v) / float64(1<<32)\<close> and
  \<^verbatim>\<open>expect = float64(m.replicas[k]) / float64(replicas)\<close>, is a function of \<^verbatim>\<open>scale\<close>,
  \<^verbatim>\<open>v\<close>, \<^verbatim>\<open>rep\<close>, \<^verbatim>\<open>m.replicas[k]\<close> and \<^verbatim>\<open>replicas\<close>. IEEE rounding is not modelled: the
  operations take that function as a parameter \<open>fl\<close>, and the general theorems hold for
  every \<open>fl\<close>.
\<close>

type_synonym fexpr = "real \<Rightarrow> int \<Rightarrow> int \<Rightarrow> int \<Rightarrow> int \<Rightarrow> int"

subsection \<open>strconv.Itoa and the hash function of the tests\<close>

text \<open>\<^verbatim>\<open>strconv.Itoa\<close> on the non-negative loop index of \<^verbatim>\<open>calc\<close>: the decimal digits.\<close>

fun Itoa :: "nat \<Rightarrow> string" where
  "Itoa n = (if n < 10 then [''0123456789'' ! n]
             else Itoa (n div 10) @ [''0123456789'' ! (n mod 10)])"

declare Itoa.simps [simp del]

definition is_digit :: "char \<Rightarrow> bool" where
  "is_digit c = (48 \<le> (of_char c :: nat) \<and> (of_char c :: nat) \<le> 57)"

definition digit_val :: "char \<Rightarrow> int" where
  "digit_val c = of_char c - 48"

text \<open>
  The hash function of \<^verbatim>\<open>TestHashing\<close>: \<^verbatim>\<open>uint32(strconv.Atoi(string(key)))\<close>. On a key that
  is not a number the Go function panics; the type \<open>Hash\<close> has no failure, the model
  returns \<open>0\<close> there, and every key hashed below is a string of digits.
\<close>

definition atoi_hash :: Hash where
  "atoi_hash s = (if s \<noteq> [] \<and> list_all is_digit s
                  then word_of_int (fold (\<lambda>c acc. 10 * acc + digit_val c) s 0) else 0)"

subsection \<open>Construction and membership\<close>

text \<open>\<^verbatim>\<open>New\<close>; \<open>crc\<close> stands for \<^verbatim>\<open>crc32.ChecksumIEEE\<close>, taken when \<^verbatim>\<open>fn\<close> is nil.\<close>

definition New :: "Hash \<Rightarrow> int \<Rightarrow> Hash option \<Rightarrow> Map" where
  "New crc reps fn =
     \<lparr>hash = (case fn of None \<Rightarrow> crc | Some f \<Rightarrow> f), replica = reps, keys = [],
      hashMap = Map.empty, hashs = Map.empty, replicas = []\<rparr>"

definition IsEmpty :: "Map \<Rightarrow> bool" where
  "IsEmpty m = (length (replicas m) = 0)"

text \<open>\<^verbatim>\<open>w[k]\<close> on a map of weights: \<open>0\<close> when \<open>k\<close> is missing.\<close>

definition weight :: "(string \<times> int) list \<Rightarrow> string \<Rightarrow> int" where
  "weight w k = (case map_of w k of None \<Rightarrow> 0 | Some r \<Rightarrow> r)"

text \<open>\<^verbatim>\<open>m.hashMap[h]\<close>: the empty string when \<open>h\<close> is missing.\<close>

definition owner :: "Map \<Rightarrow> int \<Rightarrow> string" where
  "owner m h = (case hashMap m h of None \<Rightarrow> [] | Some k \<Rightarrow> k)"

subsection \<open>calc: the ring builder\<close>

text \<open>
  One turn of the inner loop of \<^verbatim>\<open>calc\<close> for node \<open>key\<close> and index \<open>i\<close>, on the node's
  cache \<open>hs\<close>, the unsorted \<^verbatim>\<open>m.keys\<close> and \<^verbatim>\<open>m.hashMap\<close>.
\<close>

definition calc_step ::
  "Hash \<Rightarrow> string \<Rightarrow> nat \<Rightarrow> int list \<times> int list \<times> (int \<rightharpoonup> string)
     \<Rightarrow> int list \<times> int list \<times> (int \<rightharpoonup> string)" where
  "calc_step h key i = (\<lambda>(hs, ks, hm).
     if i < length hs then (hs, ks @ [hs ! i], hm(hs ! i \<mapsto> key))
     else (let x = uint (h (Itoa i @ key)) in (hs @ [x], ks @ [x], hm(x \<mapsto> key))))"

text \<open>The body of the outer loop: all indices \<open>0 \<le> i < r\<close> of one node, then \<^verbatim>\<open>m.hashs[key] = hs\<close>.\<close>

definition calc_node ::
  "Hash \<Rightarrow> string \<times> int \<Rightarrow> int list \<times> (int \<rightharpoonup> string) \<times> (string \<rightharpoonup> int list)
     \<Rightarrow> int list \<times> (int \<rightharpoonup> string) \<times> (string \<rightharpoonup> int list)" where
  "calc_node h = (\<lambda>(key, r) (ks, hm, hss).
     let hs0 = (case hss key of None \<Rightarrow> [] | Some hs \<Rightarrow> hs);
         (hs, ks', hm') = fold (calc_step h key) [0..<nat r] (hs0, ks, hm)
     in (ks', hm', hss(key \<mapsto> hs)))"

text \<open>
  \<^verbatim>\<open>calc\<close>. The sum \<^verbatim>\<open>total\<close> of the source is never read and is left out; \<^verbatim>\<open>hashMap\<close> is
  not cleared (the source never clears it); \<^verbatim>\<open>sort.Ints\<close> sorts ascending.
\<close>

definition calc :: "(string \<times> int) list \<Rightarrow> Map \<Rightarrow> Map" where
  "calc reps m =
     (let (ks, hm, hss) = fold (calc_node (hash m)) reps ([], hashMap m, hashs m)
      in m\<lparr>keys := sort ks, hashMap := hm, hashs := hss\<rparr>)"

subsection \<open>adjust: the load adjuster\<close>

text \<open>\<^verbatim>\<open>stat[k] += d\<close> on the map \<^verbatim>\<open>stat\<close>.\<close>

definition stat_add :: "string \<Rightarrow> int \<Rightarrow> (string \<times> int) list \<Rightarrow> (string \<times> int) list" where
  "stat_add k d st = AList.update k (weight st k + d) st"

text \<open>
  The arc lengths of one pass, for a ring whose first position is \<open>k0\<close>:
  \<^verbatim>\<open>stat[m.hashMap[m.keys[0]]] = m.keys[0] + int(1<<32) - m.keys[len(m.keys)-1]\<close>, then
  \<^verbatim>\<open>stat[m.hashMap[h]] += h - m.keys[i]\<close> for each \<open>h\<close> of \<^verbatim>\<open>m.keys[1:]\<close>.
\<close>

definition stat_of :: "Map \<Rightarrow> (string \<times> int) list" where
  "stat_of m =
     fold (\<lambda>(h, p). stat_add (owner m h) (h - p)) (zip (tl (keys m)) (keys m))
       [(owner m (hd (keys m)), hd (keys m) + 2 ^ 32 - last (keys m))]"

text \<open>
  The body of \<^verbatim>\<open>for k, v := range stat\<close>, on the working weights \<^verbatim>\<open>reps\<close> and the flag
  \<^verbatim>\<open>changed\<close>. The test is the source's \<^verbatim>\<open>adjust > 1 || adjust < 1\<close>.
\<close>

definition adjust_node ::
  "fexpr \<Rightarrow> real \<Rightarrow> int \<Rightarrow> Map \<Rightarrow> string \<times> int \<Rightarrow> (string \<times> int) list \<times> bool
     \<Rightarrow> (string \<times> int) list \<times> bool" where
  "adjust_node fl scale tot m = (\<lambda>(k, v) (reps, changed).
     let rep = weight reps k;
         adjust = fl scale v rep (weight (replicas m) k) tot
     in if adjust > 1 \<or> adjust < 1
        then (AList.update k (rep + adjust) reps, True)
        else (reps, changed))"

text \<open>One pass up to the test of \<^verbatim>\<open>changed\<close>: the new working weights and the flag.\<close>

definition adjust_pass ::
  "fexpr \<Rightarrow> real \<Rightarrow> int \<Rightarrow> (string \<times> int) list \<Rightarrow> Map \<Rightarrow> (string \<times> int) list \<times> bool" where
  "adjust_pass fl scale tot reps m =
     fold (adjust_node fl scale tot m) (stat_of m) (reps, False)"

text \<open>
  The loop \<^verbatim>\<open>for t := 0; t < tries; t++\<close>. \<^verbatim>\<open>m.keys[0]\<close> on an empty ring is Go's
  index-out-of-range panic.
\<close>

function adjust_loop ::
  "fexpr \<Rightarrow> int \<Rightarrow> real \<Rightarrow> int \<Rightarrow> int \<Rightarrow> (string \<times> int) list \<Rightarrow> Map \<Rightarrow> failure + Map" where
  "adjust_loop fl tries scale tot t reps m =
     (if t < tries then
        (if keys m = [] then Inl (IndexOutOfRange m)
         else (let (reps', changed) = adjust_pass fl scale tot reps m
               in if \<not> changed then Inr m
                  else adjust_loop fl tries scale tot (t + 1) reps' (calc reps' m)))
      else Inr m)"
  by pat_completeness auto
termination
  by (relation "measure (\<lambda>(fl, tries, scale, tot, t, reps, m). nat (tries - t))") auto

declare adjust_loop.simps [simp del]

text \<open>
  The number of passes the loop starts: the same recursion as \<open>adjust_loop\<close>, counting
  one for each turn of the loop body.
\<close>

function adjust_passes ::
  "fexpr \<Rightarrow> int \<Rightarrow> real \<Rightarrow> int \<Rightarrow> int \<Rightarrow> (string \<times> int) list \<Rightarrow> Map \<Rightarrow> nat" where
  "adjust_passes fl tries scale tot t reps m =
     (if t < tries then
        (if keys m = [] then 1
         else (let (reps', changed) = adjust_pass fl scale tot reps m
               in if \<not> changed then 1
                  else 1 + adjust_passes fl tries scale tot (t + 1) reps' (calc reps' m)))
      else 0)"
  by pat_completeness auto
termination
  by (relation "measure (\<lambda>(fl, tries, scale, tot, t, reps, m). nat (tries - t))") auto

declare adjust_passes.simps [simp del]

definition adjust :: "fexpr \<Rightarrow> int \<Rightarrow> real \<Rightarrow> Map \<Rightarrow> failure + Map" where
  "adjust fl tries scale m =
     (if length (keys m) \<noteq> 0 then Inr m
      else (let m1 = calc (replicas m) m
            in if length (replicas m1) \<le> 1 \<or> replica m1 < 10 then Inr m1
               else adjust_loop fl tries scale (sum_list (map snd (replicas m1))) 0
                      (replicas m1) m1))"

subsection \<open>AddWithWeight, Add, Remove\<close>

definition AddWithWeight :: "fexpr \<Rightarrow> string \<Rightarrow> int \<Rightarrow> Map \<Rightarrow> failure + Map" where
  "AddWithWeight fl key r m =
     (if r < 1 then Inl (Panic ''replica should be positive'' m)
      else (let old = weight (replicas m) key
            in if old \<noteq> r
               then adjust fl 5 (3 / 4) (m\<lparr>keys := [], replicas := AList.update key r (replicas m)\<rparr>)
               else Inr m))"

fun Add :: "fexpr \<Rightarrow> string list \<Rightarrow> Map \<Rightarrow> failure + Map" where
  "Add fl [] m = Inr m"
| "Add fl (key # ks) m =
     (case AddWithWeight fl key (replica m) m of Inl e \<Rightarrow> Inl e | Inr m' \<Rightarrow> Add fl ks m')"

definition Remove :: "fexpr \<Rightarrow> string \<Rightarrow> Map \<Rightarrow> failure + Map" where
  "Remove fl key m =
     (if map_of (replicas m) key \<noteq> None
      then adjust fl 5 (3 / 4)
             (m\<lparr>keys := [], hashs := (hashs m)(key := None),
                replicas := AList.delete key (replicas m)\<rparr>)
      else Inr m)"

subsection \<open>Lookup\<close>

text \<open>
  \<^verbatim>\<open>sort.Search(n, f)\<close> of Go's standard library: the binary search
  \<^verbatim>\<open>i, j := 0, n; for i < j { h := int(uint(i+j) >> 1); if !f(h) { i = h + 1 } else { j = h } }; return i\<close>.
\<close>

function Search_loop :: "(nat \<Rightarrow> bool) \<Rightarrow> nat \<Rightarrow> nat \<Rightarrow> nat" where
  "Search_loop f i j =
     (if i < j then (let h = (i + j) div 2
                     in if \<not> f h then Search_loop f (h + 1) j else Search_loop f i h)
      else i)"
  by pat_completeness auto
termination
  by (relation "measure (\<lambda>(f, i, j). j - i)") auto

declare Search_loop.simps [simp del]

definition Search :: "nat \<Rightarrow> (nat \<Rightarrow> bool) \<Rightarrow> nat" where
  "Search n f = Search_loop f 0 n"

definition lookup :: "Map \<Rightarrow> string \<Rightarrow> nat" where
  "lookup m key =
     (let h = uint (hash m key);
          idx = Search (length (keys m)) (\<lambda>i. keys m ! i \<ge> h)
      in if idx = length (keys m) then 0 else idx)"

text \<open>\<^verbatim>\<open>Get\<close>; \<^verbatim>\<open>m.keys[idx]\<close> panics when the ring has no position.\<close>

definition Get :: "Map \<Rightarrow> string \<Rightarrow> failure + string" where
  "Get m key =
     (if IsEmpty m then Inr []
      else (let idx = lookup m key
            in if idx < length (keys m) then Inr (owner m (keys m ! idx))
               else Inl (IndexOutOfRange m)))"

text \<open>
  The loop \<^verbatim>\<open>for m.hashMap[m.keys[idx2]] == first { idx2++; if idx2 == len(m.keys) { idx2 = 0 } }\<close>
  of \<^verbatim>\<open>Get2\<close> has no bound: \<open>None\<close> is the loop that never ends. It starts at an index
  below \<^verbatim>\<open>len(m.keys)\<close> and stays below it.
\<close>

partial_function (option) Get2_scan :: "Map \<Rightarrow> string \<Rightarrow> nat \<Rightarrow> nat option" where
  "Get2_scan m first idx2 =
     (if owner m (keys m ! idx2) = first
      then Get2_scan m first (if idx2 + 1 = length (keys m) then 0 else idx2 + 1)
      else Some idx2)"

declare Get2_scan.simps [code]

definition Get2 :: "Map \<Rightarrow> string \<Rightarrow> (failure + string \<times> string) option" where
  "Get2 m key =
     (if IsEmpty m then Some (Inr ([], []))
      else (let idx = lookup m key
            in if \<not> idx < length (keys m) then Some (Inl (IndexOutOfRange m))
               else (let first = owner m (keys m ! idx)
                     in if length (replicas m) > 1
                        then (case Get2_scan m first idx of
                                None \<Rightarrow> None
                              | Some idx2 \<Rightarrow> Some (Inr (first, owner m (keys m ! idx2))))
                        else Some (Inr (first, [])))))"

subsection \<open>The float64 expression without rounding\<close>

text \<open>
  \<open>exact_fl\<close> is the expression of \<^verbatim>\<open>adjust\<close> evaluated in exact real arithmetic, with
  Go's conversion \<^verbatim>\<open>int(..)\<close> truncating towards zero. It is only used to run the
  adjuster on concrete rings at which every intermediate value is far from the next
  integer, so that float64 rounding cannot change the truncated result.
\<close>

definition trunc_real :: "real \<Rightarrow> int" where
  "trunc_real x = (if x < 0 then - \<lfloor>- x\<rfloor> else \<lfloor>x\<rfloor>)"

definition exact_fl :: fexpr where
  "exact_fl scale v rep target tot =
     (let actual = of_int v / 2 ^ 32;
          expect = of_int target / of_int tot
      in trunc_real (of_int rep * (expect - actual) / expect * scale))"

subsection \<open>Rings used in the evaluations\<close>

text \<open>
  The rings below are built with the hash function of the tests and default replica
  count 10, so that the adjuster runs. \<open>ring_a\<close> is the ring after
  \<^verbatim>\<open>AddWithWeight("5", 1)\<close>, \<open>ring_ab\<close> after \<^verbatim>\<open>AddWithWeight("4000000000", 1)\<close> on it,
  \<open>ring_ab_grown\<close> is the ring that \<^verbatim>\<open>AddWithWeight("5", 2)\<close> builds from it before the
  first pass of the adjuster, and \<open>ring_ab_adjusted\<close> the ring that call returns.
\<close>

definition ring_a :: Map where
  "ring_a = \<lparr>hash = atoi_hash, replica = 10, keys = [5], hashMap = [5 \<mapsto> ''5''],
      hashs = [''5'' \<mapsto> [5]], replicas = [(''5'', 1)]\<rparr>"

definition ring_ab :: Map where
  "ring_ab = \<lparr>hash = atoi_hash, replica = 10, keys = [5, 4000000000],
      hashMap = [5 \<mapsto> ''5'', 4000000000 \<mapsto> ''4000000000''],
      hashs = [''5'' \<mapsto> [5], ''4000000000'' \<mapsto> [4000000000]],
      replicas = [(''5'', 1), (''4000000000'', 1)]\<rparr>"

definition ring_ab_grown :: Map where
  "ring_ab_grown = \<lparr>hash = atoi_hash, replica = 10, keys = [5, 15, 4000000000],
      hashMap = [5 \<mapsto> ''5'', 15 \<mapsto> ''5'', 4000000000 \<mapsto> ''4000000000''],
      hashs = [''5'' \<mapsto> [5, 15], ''4000000000'' \<mapsto> [4000000000]],
      replicas = [(''5'', 2), (''4000000000'', 1)]\<rparr>"

definition ring_ab_adjusted :: Map where
  "ring_ab_adjusted = ring_ab_grown\<lparr>keys := [5, 15]\<rparr>"

section \<open>Evaluation lemmas\<close>

lemma Itoa_small: "n < 10 \<Longrightarrow> Itoa n = [''0123456789'' ! n]"
  by (subst Itoa.simps) simp

lemma adjust_skip:
  "replica m < 10 \<Longrightarrow> keys m = [] \<Longrightarrow> adjust fl tries scale m = Inr (calc (replicas m) m)"
  by (simp add: adjust_def calc_def Let_def split: prod.splits)

lemmas calc_eval = upt_conv_Cons calc_def calc_node_def calc_step_def Itoa_small
  atoi_hash_def is_digit_def digit_val_def

lemmas add_eval = AddWithWeight_def New_def weight_def adjust_skip

lemmas get_eval = Get_def IsEmpty_def lookup_def Search_def Search_loop.simps owner_def Let_def

lemmas pass_eval = adjust_pass_def adjust_node_def stat_of_def stat_add_def
  exact_fl_def trunc_real_def owner_def weight_def Let_def

subsection \<open>Unfolding the loop of adjust\<close>

lemma adjust_loop_step:
  "t < tries \<Longrightarrow> keys m \<noteq> [] \<Longrightarrow> adjust_pass fl scale tot reps m = (reps', True)
     \<Longrightarrow> adjust_loop fl tries scale tot t reps m
         = adjust_loop fl tries scale tot (t + 1) reps' (calc reps' m)"
  by (subst adjust_loop.simps) simp

lemma adjust_loop_done: "\<not> t < tries \<Longrightarrow> adjust_loop fl tries scale tot t reps m = Inr m"
  by (subst adjust_loop.simps) simp

lemma adjust_loop_empty:
  "t < tries \<Longrightarrow> keys m = [] \<Longrightarrow> adjust_loop fl tries scale tot t reps m = Inl (IndexOutOfRange m)"
  by (subst adjust_loop.simps) simp

text \<open>A pass that returns the weights it was given and rebuilds the same ring repeats itself.\<close>

lemma adjust_loop_static:
  "adjust_pass fl scale tot reps m = (reps, True) \<Longrightarrow> calc reps m = m
     \<Longrightarrow> keys m \<noteq> [] \<Longrightarrow> adjust_loop fl tries scale tot t reps m = Inr m"
proof (induction "nat (tries - t)" arbitrary: t)
  case 0
  then show ?case by (simp add: adjust_loop_done)
next
  case (Suc n)
  then have "t < tries" by simp
  moreover have "adjust_loop fl tries scale tot (t + 1) reps m = Inr m"
    using Suc by (intro Suc.hyps) auto
  ultimately show ?case
    using Suc.prems by (simp add: adjust_loop_step)
qed

lemma adjust_passes_static:
  "adjust_pass fl scale tot reps m = (reps, True) \<Longrightarrow> calc reps m = m
     \<Longrightarrow> keys m \<noteq> [] \<Longrightarrow> adjust_passes fl tries scale tot t reps m = nat (tries - t)"
proof (induction "nat (tries - t)" arbitrary: t)
  case 0
  then show ?case by (subst adjust_passes.simps) simp
next
  case (Suc n)
  then have lt: "t < tries" by simp
  have "adjust_passes fl tries scale tot (t + 1) reps m = nat (tries - (t + 1))"
    using Suc by (intro Suc.hyps) auto
  then show ?case
    using Suc.prems lt
    by (subst adjust_passes.simps) (simp add: nat_diff_distrib Suc_nat_eq_nat_zadd1)
qed

text \<open>The loop never starts more than \<^verbatim>\<open>tries\<close> passes.\<close>

lemma adjust_passes_bound: "adjust_passes fl tries scale tot t reps m \<le> nat (tries - t)"
proof (induction fl tries scale tot t reps m rule: adjust_passes.induct)
  case (1 fl tries scale tot t reps m)
  show ?case
  proof (cases "t < tries \<and> keys m \<noteq> [] \<and> snd (adjust_pass fl scale tot reps m)")
    case True
    obtain reps' where p: "adjust_pass fl scale tot reps m = (reps', True)"
      using True by (cases "adjust_pass fl scale tot reps m") auto
    have "adjust_passes fl tries scale tot (t + 1) reps' (calc reps' m) \<le> nat (tries - (t + 1))"
      using 1 [of "(reps', True)" reps' True] True p by simp
    then show ?thesis
      using True p by (subst adjust_passes.simps) (simp; linarith)
  next
    case False
    then show ?thesis
      by (subst adjust_passes.simps) (auto split: prod.splits)
  qed
qed

subsection \<open>The binary search stays in range\<close>

lemma Search_loop_bounds: "i \<le> j \<Longrightarrow> i \<le> Search_loop f i j \<and> Search_loop f i j \<le> j"
proof (induction f i j rule: Search_loop.induct)
  case (1 f i j)
  show ?case
  proof (cases "i < j")
    case lt: True
    let ?h = "(i + j) div 2"
    from lt have h: "i \<le> ?h" "?h < j" by auto
    show ?thesis
    proof (cases "f ?h")
      case True
      have eq: "Search_loop f i j = Search_loop f i ?h"
        using lt True by (subst Search_loop.simps) (simp add: Let_def)
      from 1(2) [OF lt refl] True h have "i \<le> Search_loop f i ?h \<and> Search_loop f i ?h \<le> ?h"
        by simp
      with h eq show ?thesis by linarith
    next
      case False
      have eq: "Search_loop f i j = Search_loop f (?h + 1) j"
        using lt False by (subst Search_loop.simps) (simp add: Let_def)
      from 1(1) [OF lt refl] False h
      have "?h + 1 \<le> Search_loop f (?h + 1) j \<and> Search_loop f (?h + 1) j \<le> j"
        by simp
      with h eq show ?thesis by linarith
    qed
  next
    case False
    then have "Search_loop f i j = i" by (subst Search_loop.simps) simp
    with 1(3) show ?thesis by simp
  qed
qed

lemma lookup_in_range: "keys m \<noteq> [] \<Longrightarrow> lookup m key < length (keys m)"
proof -
  assume ne: "keys m \<noteq> []"
  define s where "s = Search (length (keys m)) (\<lambda>i. uint (hash m key) \<le> keys m ! i)"
  have "s \<le> length (keys m)"
    unfolding s_def Search_def by (rule conjunct2 [OF Search_loop_bounds]) simp
  moreover have "lookup m key = (if s = length (keys m) then 0 else s)"
    by (simp add: lookup_def Let_def s_def)
  ultimately show ?thesis using ne by (cases "s = length (keys m)") auto
qed

subsection \<open>The scan of Get2 on a ring with one owner\<close>

lemma Get2_scan_one_owner:
  assumes all: "\<forall>i < length (keys m). owner m (keys m ! i) = first"
    and idx: "idx < length (keys m)"
  shows "Get2_scan m first idx = None"
proof (cases "Get2_scan m first idx")
  case None
  then show ?thesis .
next
  case (Some y)
  have "\<not> ((\<forall>i < length (keys m). owner m (keys m ! i) = first) \<and> idx < length (keys m))"
  proof (rule Get2_scan.raw_induct
      [where P = "\<lambda>m first idx y.
         \<not> ((\<forall>i < length (keys m). owner m (keys m ! i) = first) \<and> idx < length (keys m))",
        OF _ Some])
    fix scan :: "Map \<Rightarrow> string \<Rightarrow> nat \<Rightarrow> nat option" and m' first' idx2 y'
    assume IH: "\<And>m first idx2 y. scan m first idx2 = Some y \<Longrightarrow>
        \<not> ((\<forall>i < length (keys m). owner m (keys m ! i) = first) \<and> idx2 < length (keys m))"
      and body: "(if owner m' (keys m' ! idx2) = first'
          then scan m' first' (if idx2 + 1 = length (keys m') then 0 else idx2 + 1)
          else Some idx2) = Some y'"
    show "\<not> ((\<forall>i < length (keys m'). owner m' (keys m' ! i) = first') \<and> idx2 < length (keys m'))"
    proof
      assume a: "(\<forall>i < length (keys m'). owner m' (keys m' ! i) = first') \<and> idx2 < length (keys m')"
      then have o: "owner m' (keys m' ! idx2) = first'" by simp
      define n where "n = (if idx2 + 1 = length (keys m') then 0 else idx2 + 1)"
      from a have "idx2 < length (keys m')" by simp
      then have n: "n < length (keys m')" by (cases "keys m'") (auto simp: n_def)
      from body o have "scan m' first' n = Some y'" by (simp add: n_def)
      from IH [OF this] a n show False by simp
    qed
  qed
  with all idx show ?thesis by simp
qed

subsection \<open>The rings of the evaluations\<close>

lemma add_ring_a: "AddWithWeight fl ''5'' 1 (New crc 10 (Some atoi_hash)) = Inr ring_a"
  by (simp add: AddWithWeight_def New_def weight_def adjust_def calc_eval ring_a_def)

lemma calc_ring_ab:
  "calc [(''5'', 1), (''4000000000'', 1)]
     (ring_a\<lparr>keys := [], replicas := [(''5'', 1), (''4000000000'', 1)]\<rparr>) = ring_ab"
  by (simp add: calc_eval ring_a_def ring_ab_def)

lemma pass_ring_ab:
  "adjust_pass exact_fl (3 / 4) 2 [(''5'', 1), (''4000000000'', 1)] ring_ab
     = ([(''5'', 1), (''4000000000'', 1)], True)"
  by (simp add: pass_eval ring_ab_def)

lemma recalc_ring_ab: "calc [(''5'', 1), (''4000000000'', 1)] ring_ab = ring_ab"
  by (simp add: calc_eval ring_ab_def)

lemma add_ring_ab: "AddWithWeight exact_fl ''4000000000'' 1 ring_a = Inr ring_ab"
proof -
  let ?r = "[(''5'', 1), (''4000000000'', 1)]"
  have "adjust exact_fl 5 (3 / 4) (ring_a\<lparr>keys := [], replicas := ?r\<rparr>)
      = adjust_loop exact_fl 5 (3 / 4) 2 0 ?r ring_ab"
    using calc_ring_ab by (simp add: adjust_def Let_def ring_ab_def)
  also have "\<dots> = Inr ring_ab"
    by (rule adjust_loop_static [OF pass_ring_ab recalc_ring_ab]) (simp add: ring_ab_def)
  finally show ?thesis
    by (simp add: AddWithWeight_def weight_def ring_a_def)
qed

lemma calc_ring_ab_grown:
  "calc [(''5'', 2), (''4000000000'', 1)]
     (ring_ab\<lparr>keys := [], replicas := [(''5'', 2), (''4000000000'', 1)]\<rparr>) = ring_ab_grown"
  by (simp add: calc_eval ring_ab_def ring_ab_grown_def fun_eq_iff)

lemma pass_ring_ab_grown:
  "adjust_pass exact_fl (3 / 4) 3 [(''5'', 2), (''4000000000'', 1)] ring_ab_grown
     = ([(''5'', 2), (''4000000000'', 0)], True)"
  by (simp add: pass_eval ring_ab_grown_def)

lemma calc_ring_ab_adjusted:
  "calc [(''5'', 2), (''4000000000'', 0)] ring_ab_grown = ring_ab_adjusted"
  by (simp add: calc_eval ring_ab_grown_def ring_ab_adjusted_def fun_eq_iff)

lemma pass_ring_ab_adjusted:
  "adjust_pass exact_fl (3 / 4) 3 [(''5'', 2), (''4000000000'', 0)] ring_ab_adjusted
     = ([(''5'', 2), (''4000000000'', 0)], True)"
  by (simp add: pass_eval ring_ab_grown_def ring_ab_adjusted_def)

lemma recalc_ring_ab_adjusted:
  "calc [(''5'', 2), (''4000000000'', 0)] ring_ab_adjusted = ring_ab_adjusted"
  by (simp add: calc_eval ring_ab_grown_def ring_ab_adjusted_def fun_eq_iff)

lemma add_ring_ab_adjusted: "AddWithWeight exact_fl ''5'' 2 ring_ab = Inr ring_ab_adjusted"
proof -
  let ?r = "[(''5'', 2), (''4000000000'', 1)]"
  let ?r' = "[(''5'', 2), (''4000000000'', 0)]"
  have "adjust exact_fl 5 (3 / 4) (ring_ab\<lparr>keys := [], replicas := ?r\<rparr>)
      = adjust_loop exact_fl 5 (3 / 4) 3 0 ?r ring_ab_grown"
    using calc_ring_ab_grown by (simp add: adjust_def Let_def ring_ab_grown_def)
  also have "\<dots> = adjust_loop exact_fl 5 (3 / 4) 3 1 ?r' ring_ab_adjusted"
    using adjust_loop_step [OF _ _ pass_ring_ab_grown, of 0 5] calc_ring_ab_adjusted
    by (simp add: ring_ab_grown_def)
  also have "\<dots> = Inr ring_ab_adjusted"
    by (rule adjust_loop_static [OF pass_ring_ab_adjusted recalc_ring_ab_adjusted])
      (simp add: ring_ab_adjusted_def ring_ab_grown_def)
  finally show ?thesis
    by (simp add: AddWithWeight_def weight_def ring_ab_def)
qed

section \<open>The scenario of TestHashing\<close>

text \<open>
  Claim C1. With the hash function that reads a numeric key as its integer value and
  default replica count 3, after \<^verbatim>\<open>Add("6","4","2")\<close> the ring positions are
  2, 4, 6, 12, 14, 16, 22, 24, 26, owned by 2, 4, 6, 2, 4, 6, 2, 4, 6; \<^verbatim>\<open>Get\<close> maps
  "2" to "2", "11" to "2", "23" to "4" and "27" to "2"; after \<^verbatim>\<open>Add("8")\<close>, which adds the
  positions 8, 18 and 28, \<^verbatim>\<open>Get("27")\<close> is "8". This holds for every float expression
  \<open>fl\<close> (the adjuster is skipped at replica count 3) and every default hash \<open>crc\<close>.
\<close>

theorem C1_test_hashing:
  "\<exists>m m'. Add fl [''6'', ''4'', ''2''] (New crc 3 (Some atoi_hash)) = Inr m
     \<and> keys m = [2, 4, 6, 12, 14, 16, 22, 24, 26]
     \<and> map (owner m) (keys m) = [''2'', ''4'', ''6'', ''2'', ''4'', ''6'', ''2'', ''4'', ''6'']
     \<and> Get m ''2'' = Inr ''2'' \<and> Get m ''11'' = Inr ''2''
     \<and> Get m ''23'' = Inr ''4'' \<and> Get m ''27'' = Inr ''2''
     \<and> Add fl [''8''] m = Inr m'
     \<and> keys m' = [2, 4, 6, 8, 12, 14, 16, 18, 22, 24, 26, 28]
     \<and> owner m' 8 = ''8'' \<and> owner m' 18 = ''8'' \<and> owner m' 28 = ''8''
     \<and> Get m' ''27'' = Inr ''8''"
proof -
  define m where "m = \<lparr>hash = atoi_hash, replica = 3,
      keys = [2, 4, 6, 12, 14, 16, 22, 24, 26],
      hashMap = [6 \<mapsto> ''6'', 16 \<mapsto> ''6'', 26 \<mapsto> ''6'', 4 \<mapsto> ''4'', 14 \<mapsto> ''4'',
                 24 \<mapsto> ''4'', 2 \<mapsto> ''2'', 12 \<mapsto> ''2'', 22 \<mapsto> ''2''],
      hashs = [''6'' \<mapsto> [6, 16, 26], ''4'' \<mapsto> [4, 14, 24], ''2'' \<mapsto> [2, 12, 22]],
      replicas = [(''6'', 3), (''4'', 3), (''2'', 3)]\<rparr>"
  have a: "Add fl [''6'', ''4'', ''2''] (New crc 3 (Some atoi_hash)) = Inr m"
    unfolding m_def by (simp add: add_eval calc_eval)
  have k: "keys m = [2, 4, 6, 12, 14, 16, 22, 24, 26]"
    by (simp add: m_def)
  have ow: "map (owner m) (keys m) = [''2'', ''4'', ''6'', ''2'', ''4'', ''6'', ''2'', ''4'', ''6'']"
    by (simp add: m_def owner_def)
  have g1: "Get m ''2'' = Inr ''2''" and g2: "Get m ''11'' = Inr ''2''"
    and g3: "Get m ''23'' = Inr ''4''" and g4: "Get m ''27'' = Inr ''2''"
    by (simp_all add: m_def get_eval atoi_hash_def is_digit_def digit_val_def)
  obtain m' where b: "Add fl [''8''] m = Inr m'"
    and k': "keys m' = [2, 4, 6, 8, 12, 14, 16, 18, 22, 24, 26, 28]"
    and o1: "owner m' 8 = ''8''" and o2: "owner m' 18 = ''8''" and o3: "owner m' 28 = ''8''"
    and g': "Get m' ''27'' = Inr ''8''"
    by (simp add: m_def add_eval calc_eval get_eval)
  have "Add fl [''6'', ''4'', ''2''] (New crc 3 (Some atoi_hash)) = Inr m
     \<and> keys m = [2, 4, 6, 12, 14, 16, 22, 24, 26]
     \<and> map (owner m) (keys m) = [''2'', ''4'', ''6'', ''2'', ''4'', ''6'', ''2'', ''4'', ''6'']
     \<and> Get m ''2'' = Inr ''2'' \<and> Get m ''11'' = Inr ''2''
     \<and> Get m ''23'' = Inr ''4'' \<and> Get m ''27'' = Inr ''2''
     \<and> Add fl [''8''] m = Inr m'
     \<and> keys m' = [2, 4, 6, 8, 12, 14, 16, 18, 22, 24, 26, 28]
     \<and> owner m' 8 = ''8'' \<and> owner m' 18 = ''8'' \<and> owner m' 28 = ''8''
     \<and> Get m' ''27'' = Inr ''8''"
    by (intro conjI a k ow g1 g2 g3 g4 b k' o1 o2 o3 g')
  then show ?thesis by (intro exI)
qed

section \<open>Queries on a ring without nodes\<close>

text \<open>
  Claim C8. A query on a ring with no registered node is not an error: \<^verbatim>\<open>Get\<close> returns
  the empty string, and \<^verbatim>\<open>Get2\<close> returns the empty string for both owners.
\<close>

theorem C8_empty_ring:
  "replicas m = [] \<Longrightarrow> Get m key = Inr [] \<and> Get2 m key = Some (Inr ([], []))"
  by (simp add: Get_def Get2_def IsEmpty_def)

theorem C8_empty_ring_witness:
  "replicas (New atoi_hash 3 None) = []
     \<and> Get (New atoi_hash 3 None) ''key'' = Inr []
     \<and> Get2 (New atoi_hash 3 None) ''key'' = Some (Inr ([], []))"
proof -
  have e: "replicas (New atoi_hash 3 None) = []" by (simp add: New_def)
  from e C8_empty_ring [OF e, of "''key''"] show ?thesis by simp
qed

section \<open>A weight below 1\<close>

text \<open>
  Claim C4 says that \<^verbatim>\<open>AddWithWeight\<close> with a weight below 1 fails with a recoverable
  InvalidArgument error that does not abort the process. The source has no error
  result: the call is \<^verbatim>\<open>panic("replica should be positive")\<close>, which unwinds the stack and
  ends the program unless a caller recovers it. At weight 0 on a new ring:
\<close>

theorem C4_panics_counterexample:
  "AddWithWeight exact_fl ''a'' 0 (New atoi_hash 3 None)
     = Inl (Panic ''replica should be positive'' (New atoi_hash 3 None))"
  by (simp add: AddWithWeight_def)

text \<open>
  Claim C4 as amended. For every node and every weight below 1, \<^verbatim>\<open>AddWithWeight\<close> panics
  with the message "replica should be positive" before it changes anything: the state
  at the panic is the state before the call.
\<close>

theorem C4_weight_below_one:
  "r < 1 \<Longrightarrow> AddWithWeight fl key r m = Inl (Panic ''replica should be positive'' m)"
  by (simp add: AddWithWeight_def)

theorem C4_weight_below_one_witness:
  "(- 2 :: int) < 1
     \<and> AddWithWeight exact_fl ''a'' (- 2) (New atoi_hash 3 None)
         = Inl (Panic ''replica should be positive'' (New atoi_hash 3 None))"
proof -
  have h: "(- 2 :: int) < 1" by simp
  from h C4_weight_below_one [OF h, of exact_fl "''a''" "New atoi_hash 3 None"]
  show ?thesis by simp
qed

section \<open>The dead band of the adjuster\<close>

text \<open>
  What the test \<^verbatim>\<open>adjust > 1 || adjust < 1\<close> does, for every float expression: a delta
  other than 1 is added to the working weight and marks the pass as changed, and only
  the delta 1 is ignored.
\<close>

lemma adjust_node_applied:
  "fl scale v (weight reps k) (weight (replicas m) k) tot \<noteq> 1 \<Longrightarrow>
   adjust_node fl scale tot m (k, v) (reps, changed)
     = (AList.update k (weight reps k + fl scale v (weight reps k) (weight (replicas m) k) tot) reps,
        True)"
  by (auto simp: adjust_node_def Let_def)

lemma adjust_node_ignored:
  "fl scale v (weight reps k) (weight (replicas m) k) tot = 1 \<Longrightarrow>
   adjust_node fl scale tot m (k, v) (reps, changed) = (reps, changed)"
  by (simp add: adjust_node_def Let_def)

text \<open>
  Claim C5 says that a delta of 0, +1 or -1 leaves the working weight unchanged and does
  not mark the pass as changed. In the first pass of \<^verbatim>\<open>AddWithWeight("5", 2)\<close> on the ring
  of the nodes "5" and "4000000000" (weight 1 each, hash function of the tests, default
  replica count 10) the arcs are 294967311 and 3999999985, the delta of "5" is 1 and the
  delta of "4000000000" is -1; the code applies the -1: the working weight of
  "4000000000" falls from 1 to 0 and the pass is marked as changed.
\<close>

theorem C5_delta_minus_one_applied:
  "AddWithWeight exact_fl ''5'' 1 (New atoi_hash 10 (Some atoi_hash)) = Inr ring_a
   \<and> AddWithWeight exact_fl ''4000000000'' 1 ring_a = Inr ring_ab
   \<and> calc [(''5'', 2), (''4000000000'', 1)]
        (ring_ab\<lparr>keys := [], replicas := [(''5'', 2), (''4000000000'', 1)]\<rparr>) = ring_ab_grown
   \<and> stat_of ring_ab_grown = [(''5'', 294967311), (''4000000000'', 3999999985)]
   \<and> exact_fl (3 / 4) 294967311 2 2 3 = 1
   \<and> exact_fl (3 / 4) 3999999985 1 1 3 = - 1
   \<and> adjust_pass exact_fl (3 / 4) 3 [(''5'', 2), (''4000000000'', 1)] ring_ab_grown
        = ([(''5'', 2), (''4000000000'', 0)], True)"
proof -
  have s: "stat_of ring_ab_grown = [(''5'', 294967311), (''4000000000'', 3999999985)]"
    by (simp add: pass_eval ring_ab_grown_def)
  have e1: "exact_fl (3 / 4) 294967311 2 2 3 = 1"
    by (simp add: exact_fl_def trunc_real_def Let_def)
  have e2: "exact_fl (3 / 4) 3999999985 1 1 3 = - 1"
    by (simp add: exact_fl_def trunc_real_def Let_def)
  show ?thesis
    by (intro conjI add_ring_a add_ring_ab calc_ring_ab_grown s e1 e2 pass_ring_ab_grown)
qed

section \<open>The number of passes\<close>

text \<open>
  Claim C6 says that the adjuster runs at most \<^verbatim>\<open>tries\<close> passes and stops as soon as a
  pass changes no working weight. The bound holds (\<open>adjust_passes_bound\<close>). The early
  stop does not: on the ring of the nodes "5" and "4000000000" with weight 1 each, both
  deltas are 0, the pass returns the working weights it was given, yet it is marked as
  changed (0 passes the test \<^verbatim>\<open>adjust < 1\<close>), the same ring is built again, and the loop of
  \<^verbatim>\<open>AddWithWeight\<close> runs all of its 5 passes.
\<close>

theorem C6_unchanged_pass_continues:
  "calc [(''5'', 1), (''4000000000'', 1)]
     (ring_a\<lparr>keys := [], replicas := [(''5'', 1), (''4000000000'', 1)]\<rparr>) = ring_ab
   \<and> exact_fl (3 / 4) 294967301 1 1 2 = 0
   \<and> exact_fl (3 / 4) 3999999995 1 1 2 = 0
   \<and> adjust_pass exact_fl (3 / 4) 2 [(''5'', 1), (''4000000000'', 1)] ring_ab
        = ([(''5'', 1), (''4000000000'', 1)], True)
   \<and> adjust_passes exact_fl 5 (3 / 4) 2 0 [(''5'', 1), (''4000000000'', 1)] ring_ab = 5"
proof -
  have e1: "exact_fl (3 / 4) 294967301 1 1 2 = 0"
    by (simp add: exact_fl_def trunc_real_def Let_def)
  have e2: "exact_fl (3 / 4) 3999999995 1 1 2 = 0"
    by (simp add: exact_fl_def trunc_real_def Let_def)
  have n: "adjust_passes exact_fl 5 (3 / 4) 2 0 [(''5'', 1), (''4000000000'', 1)] ring_ab = 5"
    using adjust_passes_static [OF pass_ring_ab recalc_ring_ab, of 5 0]
    by (simp add: ring_ab_def)
  show ?thesis
    by (intro conjI calc_ring_ab e1 e2 pass_ring_ab n)
qed

section \<open>Get2 on a ring with a single owner\<close>

text \<open>
  Claim C3 says that with at least two registered nodes \<^verbatim>\<open>Get2\<close> returns two distinct
  owners. With the hash function of the tests and replica count 1, the nodes "1" and
  "01" have the same position 1 (the keys hashed are "01" and "001"); \<^verbatim>\<open>hashMap\<close> keeps the
  node written last, every position of the ring has that owner, and the scan of \<^verbatim>\<open>Get2\<close>
  for a different owner never ends, for every key.
\<close>

theorem C3_get2_never_returns:
  "\<exists>m. Add fl [''1'', ''01''] (New crc 1 (Some atoi_hash)) = Inr m
     \<and> map fst (replicas m) = [''1'', ''01''] \<and> keys m = [1, 1]
     \<and> owner m 1 = ''01'' \<and> Get2 m key = None"
proof -
  define m where "m = \<lparr>hash = atoi_hash, replica = 1, keys = [1, 1],
      hashMap = [1 \<mapsto> ''01''], hashs = [''1'' \<mapsto> [1], ''01'' \<mapsto> [1]],
      replicas = [(''1'', 1), (''01'', 1)]\<rparr>"
  have a: "Add fl [''1'', ''01''] (New crc 1 (Some atoi_hash)) = Inr m"
    unfolding m_def by (simp add: add_eval calc_eval)
  have r: "map fst (replicas m) = [''1'', ''01'']" and k: "keys m = [1, 1]"
    and o: "owner m 1 = ''01''"
    by (simp_all add: m_def owner_def)
  have idx: "lookup m key < length (keys m)"
    by (rule lookup_in_range) (simp add: k)
  have all: "\<forall>i < length (keys m). owner m (keys m ! i) = ''01''"
    using o by (simp add: k less_Suc_eq numeral_2_eq_2)
  have scan: "Get2_scan m ''01'' (lookup m key) = None"
    by (rule Get2_scan_one_owner [OF all idx])
  have f: "owner m (keys m ! lookup m key) = ''01''"
    using all idx by simp
  have g: "Get2 m key = None"
    using idx f scan by (simp add: Get2_def IsEmpty_def Let_def) (simp add: m_def)
  show ?thesis by (intro exI [of _ m] conjI a r k o g)
qed

section \<open>Get on a ring that the adjuster has emptied\<close>

text \<open>
  Claim C10 says that \<^verbatim>\<open>Get\<close> returns a registered node whenever a node is registered.
  With the hash function of the tests and default replica count 10, five nodes of
  weight 1 are added at the positions 0, 2405181686, 2319282340, 2233382994 and
  2147483648. In the last \<^verbatim>\<open>AddWithWeight\<close> each of the five passes of the adjuster lowers
  the working weight of the node with the longest arc to 0 or below (the deltas are
  -1, -1, -1, -1 and -3), the fifth pass builds a ring without positions, and the call
  returns. The five nodes are registered, \<^verbatim>\<open>m.keys\<close> is empty, and \<^verbatim>\<open>Get\<close> reads
  \<^verbatim>\<open>m.keys[0]\<close>: an index-out-of-range panic, for every key.
\<close>

theorem C10_get_panics_on_emptied_ring:
  "\<exists>m1 m2 m3 m4 m5.
     AddWithWeight exact_fl ''0'' 1 (New atoi_hash 10 (Some atoi_hash)) = Inr m1
   \<and> AddWithWeight exact_fl ''2405181686'' 1 m1 = Inr m2
   \<and> AddWithWeight exact_fl ''2319282340'' 1 m2 = Inr m3
   \<and> AddWithWeight exact_fl ''2233382994'' 1 m3 = Inr m4
   \<and> AddWithWeight exact_fl ''2147483648'' 1 m4 = Inr m5
   \<and> replicas m5 = [(''0'', 1), (''2405181686'', 1), (''2319282340'', 1), (''2233382994'', 1),
                     (''2147483648'', 1)]
   \<and> keys m5 = []
   \<and> Get m5 key = Inl (IndexOutOfRange m5)"
proof -
  define t1 where "t1 = \<lparr>hash = atoi_hash, replica = 10, keys = [0], hashMap = [0 \<mapsto> ''0''],
        hashs = [''0'' \<mapsto> [0]], replicas = [(''0'', 1)]\<rparr>"
  define t2 where "t2 = \<lparr>hash = atoi_hash, replica = 10, keys = [0, 2405181686],
        hashMap = [0 \<mapsto> ''0'', 2405181686 \<mapsto> ''2405181686''],
        hashs = [''0'' \<mapsto> [0], ''2405181686'' \<mapsto> [2405181686]],
        replicas = [(''0'', 1), (''2405181686'', 1)]\<rparr>"
  define t3 where "t3 = \<lparr>hash = atoi_hash, replica = 10, keys = [0, 2319282340, 2405181686],
        hashMap = [0 \<mapsto> ''0'', 2405181686 \<mapsto> ''2405181686'', 2319282340 \<mapsto> ''2319282340''],
        hashs = [''0'' \<mapsto> [0], ''2405181686'' \<mapsto> [2405181686],
                 ''2319282340'' \<mapsto> [2319282340]],
        replicas = [(''0'', 1), (''2405181686'', 1), (''2319282340'', 1)]\<rparr>"
  define t4 where "t4 = \<lparr>hash = atoi_hash, replica = 10,
        keys = [0, 2233382994, 2319282340, 2405181686],
        hashMap = [0 \<mapsto> ''0'', 2405181686 \<mapsto> ''2405181686'', 2319282340 \<mapsto> ''2319282340'',
                   2233382994 \<mapsto> ''2233382994''],
        hashs = [''0'' \<mapsto> [0], ''2405181686'' \<mapsto> [2405181686],
                 ''2319282340'' \<mapsto> [2319282340], ''2233382994'' \<mapsto> [2233382994]],
        replicas = [(''0'', 1), (''2405181686'', 1), (''2319282340'', 1), (''2233382994'', 1)]\<rparr>"
  define u0 where "u0 = \<lparr>hash = atoi_hash, replica = 10,
        keys = [0, 2147483648, 2233382994, 2319282340, 2405181686],
        hashMap = [0 \<mapsto> ''0'', 2405181686 \<mapsto> ''2405181686'', 2319282340 \<mapsto> ''2319282340'',
                   2233382994 \<mapsto> ''2233382994'', 2147483648 \<mapsto> ''2147483648''],
        hashs = [''0'' \<mapsto> [0], ''2405181686'' \<mapsto> [2405181686],
                 ''2319282340'' \<mapsto> [2319282340], ''2233382994'' \<mapsto> [2233382994],
                 ''2147483648'' \<mapsto> [2147483648]],
        replicas = [(''0'', 1), (''2405181686'', 1), (''2319282340'', 1), (''2233382994'', 1),
                    (''2147483648'', 1)]\<rparr>"
  define u5 where "u5 = u0\<lparr>keys := []\<rparr>"
  have a1: "AddWithWeight exact_fl ''0'' 1 (New atoi_hash 10 (Some atoi_hash)) = Inr t1"
    by (simp add: AddWithWeight_def New_def weight_def adjust_def calc_eval t1_def)
  have a2: "AddWithWeight exact_fl ''2405181686'' 1 t1 = Inr t2"
  proof -
    let ?r = "[(''0'', 1), (''2405181686'', 1)]"
    have c: "calc ?r (t1\<lparr>keys := [], replicas := ?r\<rparr>) = t2"
      by (simp add: calc_eval t1_def t2_def)
    have p: "adjust_pass exact_fl (3 / 4) 2 ?r t2 = (?r, True)"
      by (simp add: pass_eval t2_def)
    have c': "calc ?r t2 = t2"
      by (simp add: calc_eval t2_def)
    have "adjust exact_fl 5 (3 / 4) (t1\<lparr>keys := [], replicas := ?r\<rparr>)
        = adjust_loop exact_fl 5 (3 / 4) 2 0 ?r t2"
      using c by (simp add: adjust_def Let_def t2_def)
    also have "\<dots> = Inr t2"
      by (rule adjust_loop_static [OF p c']) (simp add: t2_def)
    finally show ?thesis
      by (simp add: AddWithWeight_def weight_def t1_def)
  qed
  have a3: "AddWithWeight exact_fl ''2319282340'' 1 t2 = Inr t3"
  proof -
    let ?r = "[(''0'', 1), (''2405181686'', 1), (''2319282340'', 1)]"
    have c: "calc ?r (t2\<lparr>keys := [], replicas := ?r\<rparr>) = t3"
      by (simp add: calc_eval t2_def t3_def)
    have p: "adjust_pass exact_fl (3 / 4) 3 ?r t3 = (?r, True)"
      by (simp add: pass_eval t3_def)
    have c': "calc ?r t3 = t3"
      by (simp add: calc_eval t3_def)
    have "adjust exact_fl 5 (3 / 4) (t2\<lparr>keys := [], replicas := ?r\<rparr>)
        = adjust_loop exact_fl 5 (3 / 4) 3 0 ?r t3"
      using c by (simp add: adjust_def Let_def t3_def)
    also have "\<dots> = Inr t3"
      by (rule adjust_loop_static [OF p c']) (simp add: t3_def)
    finally show ?thesis
      by (simp add: AddWithWeight_def weight_def t2_def)
  qed
  have a4: "AddWithWeight exact_fl ''2233382994'' 1 t3 = Inr t4"
  proof -
    let ?r = "[(''0'', 1), (''2405181686'', 1), (''2319282340'', 1), (''2233382994'', 1)]"
    have c: "calc ?r (t3\<lparr>keys := [], replicas := ?r\<rparr>) = t4"
      by (simp add: calc_eval t3_def t4_def)
    have p: "adjust_pass exact_fl (3 / 4) 4 ?r t4 = (?r, True)"
      by (simp add: pass_eval t4_def)
    have c': "calc ?r t4 = t4"
      by (simp add: calc_eval t4_def)
    have "adjust exact_fl 5 (3 / 4) (t3\<lparr>keys := [], replicas := ?r\<rparr>)
        = adjust_loop exact_fl 5 (3 / 4) 4 0 ?r t4"
      using c by (simp add: adjust_def Let_def t4_def)
    also have "\<dots> = Inr t4"
      by (rule adjust_loop_static [OF p c']) (simp add: t4_def)
    finally show ?thesis
      by (simp add: AddWithWeight_def weight_def t3_def)
  qed
  have a5: "AddWithWeight exact_fl ''2147483648'' 1 t4 = Inr u5"
  proof -
    let ?r0 = "[(''0'', 1), (''2405181686'', 1), (''2319282340'', 1), (''2233382994'', 1),
                (''2147483648'', 1)]"
    let ?r1 = "[(''0'', 1), (''2405181686'', 1), (''2319282340'', 1), (''2233382994'', 1),
                (''2147483648'', 0)]"
    let ?r2 = "[(''0'', 1), (''2405181686'', 1), (''2319282340'', 1), (''2233382994'', 0),
                (''2147483648'', 0)]"
    let ?r3 = "[(''0'', 1), (''2405181686'', 1), (''2319282340'', 0), (''2233382994'', 0),
                (''2147483648'', 0)]"
    let ?r4 = "[(''0'', 1), (''2405181686'', 0), (''2319282340'', 0), (''2233382994'', 0),
                (''2147483648'', 0)]"
    let ?r5 = "[(''0'', - 2), (''2405181686'', 0), (''2319282340'', 0), (''2233382994'', 0),
                (''2147483648'', 0)]"
    let ?u1 = "u0\<lparr>keys := [0, 2233382994, 2319282340, 2405181686]\<rparr>"
    let ?u2 = "u0\<lparr>keys := [0, 2319282340, 2405181686]\<rparr>"
    let ?u3 = "u0\<lparr>keys := [0, 2405181686]\<rparr>"
    let ?u4 = "u0\<lparr>keys := [0]\<rparr>"
    have c0: "calc ?r0 (t4\<lparr>keys := [], replicas := ?r0\<rparr>) = u0"
      by (simp add: calc_eval t4_def u0_def)
    have p1: "adjust_pass exact_fl (3 / 4) 5 ?r0 u0 = (?r1, True)"
      by (simp add: pass_eval u0_def)
    have c1: "calc ?r1 u0 = ?u1"
      by (simp add: calc_eval u0_def fun_eq_iff)
    have p2: "adjust_pass exact_fl (3 / 4) 5 ?r1 ?u1 = (?r2, True)"
      by (simp add: pass_eval u0_def)
    have c2: "calc ?r2 ?u1 = ?u2"
      by (simp add: calc_eval u0_def fun_eq_iff)
    have p3: "adjust_pass exact_fl (3 / 4) 5 ?r2 ?u2 = (?r3, True)"
      by (simp add: pass_eval u0_def)
    have c3: "calc ?r3 ?u2 = ?u3"
      by (simp add: calc_eval u0_def fun_eq_iff)
    have p4: "adjust_pass exact_fl (3 / 4) 5 ?r3 ?u3 = (?r4, True)"
      by (simp add: pass_eval u0_def)
    have c4: "calc ?r4 ?u3 = ?u4"
      by (simp add: calc_eval u0_def fun_eq_iff)
    have p5: "adjust_pass exact_fl (3 / 4) 5 ?r4 ?u4 = (?r5, True)"
      by (simp add: pass_eval u0_def)
    have c5: "calc ?r5 ?u4 = u5"
      by (simp add: calc_eval u0_def u5_def fun_eq_iff)
    have "adjust exact_fl 5 (3 / 4) (t4\<lparr>keys := [], replicas := ?r0\<rparr>)
        = adjust_loop exact_fl 5 (3 / 4) 5 0 ?r0 u0"
      using c0 by (simp add: adjust_def Let_def u0_def)
    also have "\<dots> = adjust_loop exact_fl 5 (3 / 4) 5 1 ?r1 ?u1"
      using adjust_loop_step [OF _ _ p1, of 0 5] c1 by (simp add: u0_def)
    also have "\<dots> = adjust_loop exact_fl 5 (3 / 4) 5 2 ?r2 ?u2"
      using adjust_loop_step [OF _ _ p2, of 1 5] c2 by (simp add: u0_def)
    also have "\<dots> = adjust_loop exact_fl 5 (3 / 4) 5 3 ?r3 ?u3"
      using adjust_loop_step [OF _ _ p3, of 2 5] c3 by (simp add: u0_def)
    also have "\<dots> = adjust_loop exact_fl 5 (3 / 4) 5 4 ?r4 ?u4"
      using adjust_loop_step [OF _ _ p4, of 3 5] c4 by (simp add: u0_def)
    also have "\<dots> = adjust_loop exact_fl 5 (3 / 4) 5 5 ?r5 u5"
      using adjust_loop_step [OF _ _ p5, of 4 5] c5 by (simp add: u0_def)
    also have "\<dots> = Inr u5"
      by (simp add: adjust_loop_done)
    finally show ?thesis
      by (simp add: AddWithWeight_def weight_def t4_def)
  qed
  have r: "replicas u5 = [(''0'', 1), (''2405181686'', 1), (''2319282340'', 1),
      (''2233382994'', 1), (''2147483648'', 1)]"
    and k: "keys u5 = []"
    by (simp_all add: u5_def u0_def)
  have g: "Get u5 key = Inl (IndexOutOfRange u5)"
    by (simp add: Get_def IsEmpty_def lookup_def Search_def Search_loop.simps r k)
  show ?thesis
    by (intro exI [of _ t1] exI [of _ t2] exI [of _ t3] exI [of _ t4] exI [of _ u5] conjI
        a1 a2 a3 a4 a5 r k g)
qed

end
